theory Spec2Isabelle
  imports Complex_Main "HOL-Library.AList"
begin

section \<open>Data model of the task-dispatch middleware (src/middleware/app.py)\<close>

text \<open>
  Task and agent identifiers are Python ints. Time does not pass inside the model: a key
  written with an expiry keeps the number of seconds it was written with, and stays live.
  Python floats (durations, earnings) are read as real numbers, so an equation on earnings
  is an equation on the expression the code computes, not on its rounding.
\<close>

type_synonym task = int
type_synonym agent = int
type_synonym seconds = nat
type_synonym timestamp = nat

text \<open>The audio URL is the formatted path \<^verbatim>\<open>/api/audio/stream/{task_id}/{agent_id}\<close>.\<close>

datatype url = Audio_stream task agent

text \<open>
  What Label Studio holds under \<^verbatim>\<open>data.metadata\<close> of a task: a JSON object, null, or
  another JSON value that is no dict to pydantic (a string, a number, ...).
\<close>

datatype metadata_json = Metadata_dict "(string \<times> string) list" | Metadata_null | Metadata_other

text \<open>
  The dict \<^verbatim>\<open>task_data\<close>, which is the JSON value stored under \<^verbatim>\<open>agent:active:{A}\<close>.
  \<^verbatim>\<open>TaskResponse(**task_data)\<close> validates it against the response model (\<^verbatim>\<open>metadata: dict\<close>):
  the same fields when the metadata is a dict, a ValidationError (None) otherwise. The
  duration is taken to be a number or null, which the model \<^verbatim>\<open>Optional[float]\<close> accepts.
\<close>

record task_data =
  task_id :: task
  audio_url :: url
  duration :: "real option"
  metadata :: metadata_json

definition TaskResponse :: "task_data \<Rightarrow> task_data option" where
  "TaskResponse td =
     (case metadata td of
        Metadata_dict m \<Rightarrow> Some td
      | Metadata_null \<Rightarrow> None
      | Metadata_other \<Rightarrow> None)"

text \<open>\<^verbatim>\<open>TranscriptionSession\<close> (models_async.py); status is one of three strings.\<close>

datatype status = Assigned | Completed | Skipped

record session =
  ses_agent_id :: agent
  ses_task_id :: task
  assigned_at :: timestamp
  completed_at :: "timestamp option"
  duration_seconds :: "real option"
  ses_status :: status
  transcription_length :: "nat option"
  skip_reason :: "string option"

text \<open>\<^verbatim>\<open>AgentStats\<close> (models_async.py), with the column defaults.\<close>

record agent_stats =
  total_duration_seconds :: real
  total_tasks_completed :: int
  total_tasks_skipped :: int
  total_earnings :: real
  last_active :: "timestamp option"

definition new_agent_stats :: agent_stats where
  "new_agent_stats = \<lparr>total_duration_seconds = 0, total_tasks_completed = 0,
     total_tasks_skipped = 0, total_earnings = 0, last_active = None\<rparr>"

text \<open>
  The whole state one request handler can touch: the Redis keys (\<open>queue\<close> is the list
  \<^verbatim>\<open>assignment_queue\<close>, \<open>locked\<close> the keys \<^verbatim>\<open>task:locked:{T}\<close>, \<open>active\<close> the keys
  \<^verbatim>\<open>agent:active:{A}\<close>, \<open>skipped\<close> the keys \<^verbatim>\<open>task:skipped:{T}:{A}\<close>, \<open>global_skips\<close> the keys
  \<^verbatim>\<open>task:global_skips:{T}\<close> in the order \<^verbatim>\<open>KEYS\<close> lists them, and the three audit lists),
  the module-level dicts \<^verbatim>\<open>assignment_queue\<close> (\<open>tasks\<close>, \<open>last_sync\<close>, \<open>syncing\<close>,
  \<open>completed_tasks\<close>) and \<^verbatim>\<open>stats_cache\<close>, the two PostgreSQL tables, and the annotation
  POSTs issued to Label Studio so far.
\<close>

record state =
  queue :: "task list"
  locked :: "task \<rightharpoonup> agent \<times> seconds"
  active :: "agent \<rightharpoonup> task_data \<times> seconds"
  skipped :: "task \<times> agent \<rightharpoonup> seconds"
  global_skips :: "(task \<times> int \<times> seconds option) list"
  audit_assignments :: "(agent \<times> task \<times> timestamp) list"
  audit_completions :: "(agent \<times> task \<times> timestamp \<times> nat) list"
  audit_skips :: "(agent \<times> task \<times> timestamp \<times> string) list"
  tasks :: "task list"
  last_sync :: "timestamp option"
  syncing :: bool
  completed_tasks :: "task set"
  total_unlabeled :: int
  total_locked :: int
  available :: int
  last_updated :: "timestamp option"
  sessions :: "session list"
  stats :: "agent \<rightharpoonup> agent_stats"
  annotations :: "(task \<times> string) list"

section \<open>HTTP outcomes\<close>

datatype exn =
    Annotation_rejected
  | Remove_not_in_list
  | Upstream_failed
  | Validation_error
  | Increment_overflow

datatype detail =
    Invalid_API_key
  | No_tasks_in_queue
  | No_available_tasks agent
  | Cannot_submit
  | Cannot_skip
  | Str_of exn
  | Internal_Server_Error

datatype 'a response = OK 'a | HTTP_error nat detail

section \<open>Authentication: \<^verbatim>\<open>verify_tz_system\<close>\<close>

text \<open>
  \<^verbatim>\<open>TZ_SYSTEM_API_KEY = os.getenv(...)\<close> is a string or None; \<^verbatim>\<open>api_key\<close> is what the
  \<^verbatim>\<open>APIKeyHeader(auto_error=False)\<close> dependency hands over: the value of the
  \<^verbatim>\<open>X-API-Key\<close> header, or None when the request carries none.
\<close>

definition verify_tz_system :: "string option \<Rightarrow> string option \<Rightarrow> bool response" where
  "verify_tz_system TZ_SYSTEM_API_KEY api_key =
     (if api_key \<noteq> TZ_SYSTEM_API_KEY then HTTP_error 403 Invalid_API_key else OK True)"

section \<open>Redis commands used by the assignment script\<close>

definition LPOP :: "state \<Rightarrow> task option \<times> state" where
  "LPOP s = (case queue s of [] \<Rightarrow> (None, s) | t # q \<Rightarrow> (Some t, s\<lparr>queue := q\<rparr>))"

definition RPUSH :: "task \<Rightarrow> state \<Rightarrow> state" where
  "RPUSH t s = s\<lparr>queue := queue s @ [t]\<rparr>"

definition LLEN :: "state \<Rightarrow> nat" where
  "LLEN s = length (queue s)"

definition GET_global_skips :: "state \<Rightarrow> task \<Rightarrow> int option" where
  "GET_global_skips s t = map_option fst (map_of (global_skips s) t)"

definition EXISTS_skipped :: "state \<Rightarrow> task \<Rightarrow> agent \<Rightarrow> bool" where
  "EXISTS_skipped s t a = (skipped s (t, a) \<noteq> None)"

definition GET_locked :: "state \<Rightarrow> task \<Rightarrow> agent option" where
  "GET_locked s t = map_option fst (locked s t)"

text \<open>\<^verbatim>\<open>SET key value NX EX ttl\<close>: writes only when the key is absent, and says whether it did.\<close>

definition SET_locked_NX_EX :: "task \<Rightarrow> agent \<Rightarrow> seconds \<Rightarrow> state \<Rightarrow> bool \<times> state" where
  "SET_locked_NX_EX t a ttl s =
     (case locked s t of
        None \<Rightarrow> (True, s\<lparr>locked := (locked s)(t \<mapsto> (a, ttl))\<rparr>)
      | Some _ \<Rightarrow> (False, s))"

section \<open>The atomic assignment script (the Lua text in \<^verbatim>\<open>request_task_for_agent\<close>)\<close>

datatype script_result = NONE | DISABLED | SKIPPED | LOCKED | Task_id task

definition lua_script :: "agent \<Rightarrow> state \<Rightarrow> script_result \<times> state" where
  "lua_script agent_id s =
     (case LPOP s of
        (None, s0) \<Rightarrow> (NONE, s0)
      | (Some t, s1) \<Rightarrow>
          let global_skip_count = (case GET_global_skips s1 t of None \<Rightarrow> 0 | Some c \<Rightarrow> c)
          in if global_skip_count \<ge> 5 then (DISABLED, s1)
             else if EXISTS_skipped s1 t agent_id then (SKIPPED, RPUSH t s1)
             else (case SET_locked_NX_EX t agent_id 3600 s1 of
                     (True, s2) \<Rightarrow> (Task_id t, s2)
                   | (False, s2) \<Rightarrow> (LOCKED, RPUSH t s2)))"

text \<open>The value of \<^verbatim>\<open>GlobalSkipCount(T)\<close> as the script reads it: 0 when the key is absent.\<close>

definition GlobalSkipCount :: "state \<Rightarrow> task \<Rightarrow> int" where
  "GlobalSkipCount s t = (case GET_global_skips s t of None \<Rightarrow> 0 | Some c \<Rightarrow> c)"

section \<open>The reconciler: \<^verbatim>\<open>sync_assignment_queue\<close> and \<^verbatim>\<open>remove_task_from_queue\<close>\<close>

text \<open>
  \<open>project_unlabeled\<close> is what \<^verbatim>\<open>project.get_unlabeled_tasks\<close> gives at this call: the ids
  of the unlabeled tasks in Label Studio's order, or None when \<^verbatim>\<open>project\<close> is None or the
  call raises (the handler logs the exception; either way the queue is left as it is).
\<close>

text \<open>
  The three stretches of the handler between its suspension points: the filter on the
  fetched list (l.86-89), the pipelined DELETE and right-pushes (l.100-104), and the
  in-memory list and cached statistics (l.107-121).
\<close>

definition fresh_task_ids :: "task list \<Rightarrow> state \<Rightarrow> task list" where
  "fresh_task_ids ids s = filter (\<lambda>t. t \<notin> completed_tasks s) ids"

definition pipe_execute :: "task list \<Rightarrow> state \<Rightarrow> state" where
  "pipe_execute fresh s = fold RPUSH fresh (s\<lparr>queue := []\<rparr>)"

definition publish :: "task list \<Rightarrow> timestamp \<Rightarrow> state \<Rightarrow> state" where
  "publish fresh now s =
     (let locked_count = length (filter (\<lambda>t. locked s t \<noteq> None) fresh)
      in s\<lparr>tasks := fresh,
           last_sync := Some now,
           total_unlabeled := int (length fresh),
           last_updated := Some now,
           total_locked := int locked_count,
           available := int (length fresh) - int locked_count\<rparr>)"

definition sync_assignment_queue :: "task list option \<Rightarrow> timestamp \<Rightarrow> state \<Rightarrow> state" where
  "sync_assignment_queue project_unlabeled now s =
     (if syncing s then s
      else case project_unlabeled of
        None \<Rightarrow> s\<lparr>syncing := False\<rparr>
      | Some ids \<Rightarrow>
          let fresh = fresh_task_ids ids s
          in (publish fresh now (pipe_execute fresh (s\<lparr>syncing := True\<rparr>)))\<lparr>syncing := False\<rparr>)"

text \<open>
  \<^verbatim>\<open>remove_task_from_queue\<close> suspends once, in \<^verbatim>\<open>await ... lrem\<close> (l.150): before it the id
  leaves the in-memory list (one occurrence) and the store list (all occurrences); after
  it the id enters \<^verbatim>\<open>completed_tasks\<close> and the cached statistics are adjusted.
\<close>

definition remove_from_queues :: "task \<Rightarrow> state \<Rightarrow> state" where
  "remove_from_queues t s =
     (let mem = (if t \<in> set (tasks s) then remove1 t (tasks s) else tasks s)
      in s\<lparr>tasks := mem, queue := removeAll t (queue s)\<rparr>)"

definition mark_completed :: "task \<Rightarrow> state \<Rightarrow> state" where
  "mark_completed t s =
     s\<lparr>completed_tasks := insert t (completed_tasks s),
       total_unlabeled := max 0 (total_unlabeled s - 1),
       available := int (length (tasks s))\<rparr>"

definition remove_task_from_queue :: "task \<Rightarrow> state \<Rightarrow> state" where
  "remove_task_from_queue t s = mark_completed t (remove_from_queues t s)"

section \<open>The assignment engine: \<^verbatim>\<open>request_task_for_agent\<close>\<close>

text \<open>
  What surrounds one request: the clock, what Label Studio answers (the n-th call of
  \<^verbatim>\<open>get_unlabeled_tasks\<close> and the task details), and the other agents whose atomic script
  runs between this handler's batch transfer and its own script, by the number of
  attempts this handler has left (nobody, when the handler runs alone).
\<close>

record task_details =
  data_duration :: "real option"
  data_metadata :: "metadata_json option"

record ls_env =
  utcnow :: timestamp
  get_unlabeled_tasks :: "nat \<Rightarrow> task list option"
  get_task :: "task \<Rightarrow> task_details option"
  racing :: "nat \<Rightarrow> agent list"

text \<open>
  The batch transfer at the head of an iteration: for each of the first ten ids of the
  handler's copy, an \<^verbatim>\<open>rpush\<close> is buffered in the pipeline and the id is removed from the
  in-memory list. \<^verbatim>\<open>list.remove\<close> raises ValueError when the id is not there (\<open>Inl\<close>, with
  the in-memory list as it is at that point); the pipeline is then never executed.
\<close>

fun transfer :: "task list \<Rightarrow> task list \<Rightarrow> task list + task list" where
  "transfer [] mem = Inr mem"
| "transfer (memory_task_id # rest) mem =
     (if memory_task_id \<in> set mem then transfer rest (remove1 memory_task_id mem) else Inl mem)"

definition refill :: "task list \<Rightarrow> state \<Rightarrow> state + state" where
  "refill available_task_ids s =
     (if LLEN s = 0
      then (case transfer (take 10 available_task_ids) (tasks s) of
              Inl mem \<Rightarrow> Inl (s\<lparr>tasks := mem\<rparr>)
            | Inr mem \<Rightarrow> Inr (fold RPUSH (take 10 available_task_ids) (s\<lparr>tasks := mem\<rparr>)))
      else Inr s)"

text \<open>
  The branch of the loop taken when the script has returned a task id. The metadata
  defaults to the empty dict only when the key is absent. \<^verbatim>\<open>TaskResponse(**task_data)\<close>
  comes last, inside the \<^verbatim>\<open>try\<close>: when it raises, the writes have been made and the
  handler answers 500.
\<close>

definition assign_task :: "agent \<Rightarrow> task \<Rightarrow> ls_env \<Rightarrow> state \<Rightarrow> task_data response \<times> state" where
  "assign_task agent_id t env s =
     (let details = get_task env t;
          dur = (case details of None \<Rightarrow> None | Some d \<Rightarrow> data_duration d);
          meta = (case details of None \<Rightarrow> Metadata_dict []
                  | Some d \<Rightarrow> (case data_metadata d of None \<Rightarrow> Metadata_dict [] | Some m \<Rightarrow> m));
          td = \<lparr>task_id = t, audio_url = Audio_stream t agent_id, duration = dur,
                metadata = meta\<rparr>;
          transcription_session = \<lparr>ses_agent_id = agent_id, ses_task_id = t,
             assigned_at = utcnow env, completed_at = None, duration_seconds = dur,
             ses_status = Assigned, transcription_length = None, skip_reason = None\<rparr>;
          st = (case stats s agent_id of None \<Rightarrow> new_agent_stats | Some a \<Rightarrow> a);
          s' = s\<lparr>active := (active s)(agent_id \<mapsto> (td, 3600)),
                 sessions := sessions s @ [transcription_session],
                 stats := (stats s)(agent_id \<mapsto> st\<lparr>last_active := Some (utcnow env)\<rparr>),
                 audit_assignments := (agent_id, t, utcnow env) # audit_assignments s\<rparr>
      in (case TaskResponse td of
            Some r \<Rightarrow> (OK r, s')
          | None \<Rightarrow> (HTTP_error 500 (Str_of Validation_error), s')))"

text \<open>The handler's local counters, written to the log when the loop is left empty-handed.\<close>

record debug_results =
  dbg_SKIPPED :: nat
  dbg_LOCKED :: nat
  dbg_DISABLED :: nat
  dbg_None :: nat

definition no_results :: debug_results where
  "no_results = \<lparr>dbg_SKIPPED = 0, dbg_LOCKED = 0, dbg_DISABLED = 0, dbg_None = 0\<rparr>"

definition others_scripts :: "agent list \<Rightarrow> state \<Rightarrow> state" where
  "others_scripts agents s = fold (\<lambda>b s'. snd (lua_script b s')) agents s"

text \<open>
  \<^verbatim>\<open>for attempt in range(max_attempts)\<close>, by the number of attempts left. Falling out of
  the loop, by \<^verbatim>\<open>break\<close> on a nil result or after the last attempt, raises the 404 "No
  available tasks for agent ..."; an exception raised inside is turned into a 500.
\<close>

fun attempts ::
    "nat \<Rightarrow> agent \<Rightarrow> task list \<Rightarrow> ls_env \<Rightarrow> debug_results \<Rightarrow> state
      \<Rightarrow> task_data response \<times> debug_results \<times> state" where
  "attempts 0 agent_id available_task_ids env dbg s =
     (HTTP_error 404 (No_available_tasks agent_id), dbg, s)"
| "attempts (Suc n) agent_id available_task_ids env dbg s =
     (case refill available_task_ids s of
        Inl s_err \<Rightarrow> (HTTP_error 500 (Str_of Remove_not_in_list), dbg, s_err)
      | Inr s1 \<Rightarrow>
          (case lua_script agent_id (others_scripts (racing env n) s1) of
             (NONE, s2) \<Rightarrow>
               (HTTP_error 404 (No_available_tasks agent_id),
                dbg\<lparr>dbg_None := dbg_None dbg + 1\<rparr>, s2)
           | (SKIPPED, s2) \<Rightarrow>
               attempts n agent_id available_task_ids env
                 (dbg\<lparr>dbg_SKIPPED := dbg_SKIPPED dbg + 1\<rparr>) s2
           | (LOCKED, s2) \<Rightarrow>
               attempts n agent_id available_task_ids env
                 (dbg\<lparr>dbg_LOCKED := dbg_LOCKED dbg + 1\<rparr>) s2
           | (DISABLED, s2) \<Rightarrow>
               attempts n agent_id available_task_ids env
                 (dbg\<lparr>dbg_DISABLED := dbg_DISABLED dbg + 1\<rparr>) s2
           | (Task_id t, s2) \<Rightarrow>
               (case assign_task agent_id t env s2 of (r, s3) \<Rightarrow> (r, dbg, s3))))"

definition max_attempts :: nat where
  "max_attempts = 50"

text \<open>
  The part before the loop: the handler looks at the in-memory list only. When it is
  empty it reconciles, and when it is still empty it asks Label Studio directly and
  reconciles once more if that answer is not empty.
\<close>

definition ensure_available :: "ls_env \<Rightarrow> state \<Rightarrow> task list \<times> state" where
  "ensure_available env s =
     (if tasks s \<noteq> [] then (tasks s, s)
      else let s1 = sync_assignment_queue (get_unlabeled_tasks env 0) (utcnow env) s
           in if tasks s1 \<noteq> [] then (tasks s1, s1)
              else (case get_unlabeled_tasks env 1 of
                      None \<Rightarrow> (tasks s1, s1)
                    | Some ts \<Rightarrow>
                        if ts \<noteq> []
                        then let s2 = sync_assignment_queue (get_unlabeled_tasks env 2) (utcnow env) s1
                             in (tasks s2, s2)
                        else (tasks s1, s1)))"

definition request_task_for_agent :: "agent \<Rightarrow> ls_env \<Rightarrow> state \<Rightarrow> task_data response \<times> state" where
  "request_task_for_agent agent_id env s =
     (case active s agent_id of
        Some (task_data, ttl) \<Rightarrow>
          (case TaskResponse task_data of
             Some r \<Rightarrow> (OK r, s)
           | None \<Rightarrow> (HTTP_error 500 Internal_Server_Error, s))
      | None \<Rightarrow>
          (case ensure_available env s of
             (available_task_ids, s1) \<Rightarrow>
               if available_task_ids = []
               then (HTTP_error 404 No_tasks_in_queue, s1)
               else (case attempts max_attempts agent_id available_task_ids env no_results s1 of
                       (r, dbg, s2) \<Rightarrow> (r, s2))))"

section \<open>Submission and skip: \<^verbatim>\<open>submit_transcription\<close>, \<^verbatim>\<open>skip_task\<close>\<close>

text \<open>What the annotation POST to Label Studio comes back with.\<close>

datatype http_reply = Status nat | Request_failed

definition matches :: "agent \<Rightarrow> task \<Rightarrow> session \<Rightarrow> bool" where
  "matches a t x = (ses_agent_id x = a \<and> ses_task_id x = t \<and> ses_status x = Assigned)"

text \<open>
  The ledger part of a submit. All matching rows are flipped; the aggregate is touched
  once, under \<^verbatim>\<open>if agent_stats and session.duration_seconds\<close>, where \<^verbatim>\<open>session\<close> is the
  loop variable after the loop: the last matching row.
\<close>

definition complete_sessions :: "agent \<Rightarrow> task \<Rightarrow> string \<Rightarrow> timestamp \<Rightarrow> state \<Rightarrow> state" where
  "complete_sessions a t transcription now s =
     (let found = filter (matches a t) (sessions s)
      in if found = [] then s
         else let flipped = map (\<lambda>x. if matches a t x
                      then x\<lparr>completed_at := Some now, ses_status := Completed,
                             transcription_length := Some (length transcription)\<rparr>
                      else x) (sessions s);
                  s1 = s\<lparr>sessions := flipped\<rparr>
              in (case (stats s a, duration_seconds (last found)) of
                    (Some st, Some d) \<Rightarrow>
                      if d \<noteq> 0
                      then s1\<lparr>stats := (stats s)(a \<mapsto>
                             st\<lparr>total_duration_seconds := total_duration_seconds st + d,
                                total_tasks_completed := total_tasks_completed st + 1,
                                last_active := Some now,
                                total_earnings := total_earnings st + (d / 60) * 0.45\<rparr>)\<rparr>
                      else s1
                  | _ \<Rightarrow> s1))"

text \<open>
  What a submit writes once Label Studio has accepted the annotation, up to the call of
  \<^verbatim>\<open>remove_task_from_queue\<close>: the ledger, the release of the lock and of the stored
  assignment, the audit entry (l.593-641).
\<close>

definition record_completion :: "agent \<Rightarrow> task \<Rightarrow> string \<Rightarrow> timestamp \<Rightarrow> state \<Rightarrow> state" where
  "record_completion a t transcription now s =
     (let s1 = complete_sessions a t transcription now s
      in s1\<lparr>locked := (locked s1)(t := None),
            active := (active s1)(a := None),
            audit_completions := (a, t, now, length transcription) # audit_completions s1\<rparr>)"

definition submit_transcription ::
    "task \<Rightarrow> agent \<Rightarrow> string \<Rightarrow> http_reply \<Rightarrow> timestamp \<Rightarrow> state \<Rightarrow> unit response \<times> state" where
  "submit_transcription t a transcription reply now s =
     (if GET_locked s t \<noteq> Some a then (HTTP_error 403 Cannot_submit, s)
      else let s0 = s\<lparr>annotations := annotations s @ [(t, transcription)]\<rparr>
           in case reply of
                Request_failed \<Rightarrow> (HTTP_error 500 (Str_of Upstream_failed), s0)
              | Status code \<Rightarrow>
                  if code \<notin> {200, 201}
                  then (HTTP_error 500 (Str_of Annotation_rejected), s0)
                  else (OK (), remove_task_from_queue t
                                 (record_completion a t transcription now s0)))"

text \<open>
  \<^verbatim>\<open>INCR\<close> on a 64-bit signed counter: at the largest value Redis refuses (\<open>None\<close>) and the
  client raises.
\<close>

definition INCR_global_skips :: "task \<Rightarrow> state \<Rightarrow> (int \<times> state) option" where
  "INCR_global_skips t s =
     (case map_of (global_skips s) t of
        None \<Rightarrow> Some (1, s\<lparr>global_skips := AList.update t (1, None) (global_skips s)\<rparr>)
      | Some (c, ttl) \<Rightarrow>
          if c \<ge> 9223372036854775807 then None
          else Some (c + 1, s\<lparr>global_skips := AList.update t (c + 1, ttl) (global_skips s)\<rparr>))"

definition EXPIRE_global_skips :: "task \<Rightarrow> seconds \<Rightarrow> state \<Rightarrow> state" where
  "EXPIRE_global_skips t ttl s =
     (case map_of (global_skips s) t of
        None \<Rightarrow> s
      | Some (c, _) \<Rightarrow> s\<lparr>global_skips := AList.update t (c, Some ttl) (global_skips s)\<rparr>)"

definition reason_or_default :: "string option \<Rightarrow> string" where
  "reason_or_default reason =
     (case reason of None \<Rightarrow> ''No reason provided''
      | Some r \<Rightarrow> if r = [] then ''No reason provided'' else r)"

definition skip_sessions :: "agent \<Rightarrow> task \<Rightarrow> string option \<Rightarrow> timestamp \<Rightarrow> state \<Rightarrow> state" where
  "skip_sessions a t reason now s =
     (let found = filter (matches a t) (sessions s)
      in if found = [] then s
         else let flipped = map (\<lambda>x. if matches a t x
                      then x\<lparr>ses_status := Skipped,
                             skip_reason := Some (reason_or_default reason)\<rparr>
                      else x) (sessions s);
                  s1 = s\<lparr>sessions := flipped\<rparr>
              in (case stats s a of
                    Some st \<Rightarrow>
                      s1\<lparr>stats := (stats s)(a \<mapsto>
                           st\<lparr>total_tasks_skipped := total_tasks_skipped st + 1,
                              last_active := Some now\<rparr>)\<rparr>
                  | None \<Rightarrow> s1))"

definition skip_task ::
    "task \<Rightarrow> agent \<Rightarrow> string option \<Rightarrow> timestamp \<Rightarrow> state \<Rightarrow> unit response \<times> state" where
  "skip_task t a reason now s =
     (if GET_locked s t \<noteq> Some a then (HTTP_error 403 Cannot_skip, s)
      else let s0 = s\<lparr>skipped := (skipped s)((t, a) \<mapsto> 1800)\<rparr>
           in case INCR_global_skips t s0 of
                None \<Rightarrow> (HTTP_error 500 (Str_of Increment_overflow), s0)
              | Some (global_skip_count, s1) \<Rightarrow>
                  let s2 = (if global_skip_count = 1 then EXPIRE_global_skips t 86400 s1 else s1);
                      s3 = skip_sessions a t reason now s2;
                      s4 = s3\<lparr>locked := (locked s3)(t := None),
                              active := (active s3)(a := None),
                              audit_skips :=
                                (a, t, now, reason_or_default reason) # audit_skips s3\<rparr>
                  in (OK (), s4))"

section \<open>Maintenance: \<^verbatim>\<open>reset_disabled_tasks\<close>\<close>

definition KEYS_global_skips :: "state \<Rightarrow> task list" where
  "KEYS_global_skips s = map fst (global_skips s)"

definition DEL_global_skips :: "task \<Rightarrow> state \<Rightarrow> state" where
  "DEL_global_skips t s = s\<lparr>global_skips := AList.delete t (global_skips s)\<rparr>"

text \<open>The body of \<^verbatim>\<open>for key in keys\<close>, on (reset_count, restored_tasks, state).\<close>

definition reset_key :: "task \<Rightarrow> nat \<times> task list \<times> state \<Rightarrow> nat \<times> task list \<times> state" where
  "reset_key key acc =
     (case acc of (reset_count, restored_tasks, s) \<Rightarrow>
        (case GET_global_skips s key of
           None \<Rightarrow> acc
         | Some skip_count \<Rightarrow>
             if skip_count \<ge> 2
             then (reset_count + 1, restored_tasks @ [key], DEL_global_skips key s)
             else acc))"

text \<open>
  The result carries the response body (reset_count, restored_tasks), whether
  \<^verbatim>\<open>asyncio.create_task(sync_assignment_queue())\<close> was called, and the state.
\<close>

definition reset_disabled_tasks :: "state \<Rightarrow> (nat \<times> task list) response \<times> bool \<times> state" where
  "reset_disabled_tasks s =
     (case fold reset_key (KEYS_global_skips s) (0, [], s) of
        (reset_count, restored_tasks, s1) \<Rightarrow>
          (OK (reset_count, restored_tasks), reset_count > 0, s1))"

text \<open>\<^verbatim>\<open>get_disabled_tasks\<close>: the keys whose counter is at least 5, sorted by task id.\<close>

definition get_disabled_tasks :: "state \<Rightarrow> (task \<times> int) list" where
  "get_disabled_tasks s =
     sort_key fst
       (concat (map (\<lambda>key. case GET_global_skips s key of
                              None \<Rightarrow> []
                            | Some c \<Rightarrow> if c \<ge> 5 then [(key, c)] else [])
                    (KEYS_global_skips s)))"

section \<open>The state at start-up\<close>

text \<open>The module-level initial values, an empty Redis and empty tables.\<close>

definition initial_state :: state where
  "initial_state =
     \<lparr>queue = [], locked = Map.empty, active = Map.empty, skipped = Map.empty,
      global_skips = [], audit_assignments = [], audit_completions = [], audit_skips = [],
      tasks = [], last_sync = None, syncing = False, completed_tasks = {},
      total_unlabeled = 0, total_locked = 0, available = 0, last_updated = None,
      sessions = [], stats = Map.empty, annotations = []\<rparr>"

text \<open>
  A request served alone at time 0, Label Studio answering every listing with the given
  ids (None: it cannot be reached) and having no details for any task.
\<close>

definition ls_with :: "task list option \<Rightarrow> ls_env" where
  "ls_with ids = \<lparr>utcnow = 0, get_unlabeled_tasks = (\<lambda>_. ids), get_task = (\<lambda>_. None),
      racing = (\<lambda>_. [])\<rparr>"

section \<open>Ledger counts and example states\<close>

text \<open>The number of ledger rows of an agent with status 'completed'.\<close>

definition completed_rows :: "agent \<Rightarrow> state \<Rightarrow> nat" where
  "completed_rows a s =
     length (filter (\<lambda>x. ses_agent_id x = a \<and> ses_status x = Completed) (sessions s))"

text \<open>An 'assigned' row of agent 7 for task 101 with a duration of 60 s.\<close>

definition row_7_101 :: session where
  "row_7_101 = \<lparr>ses_agent_id = 7, ses_task_id = 101, assigned_at = 0,
     completed_at = None, duration_seconds = Some 60, ses_status = Assigned,
     transcription_length = None, skip_reason = None\<rparr>"

text \<open>Agent 7 holds task 101, with one ledger row, and with the row duplicated.\<close>

definition one_row :: state where
  "one_row = initial_state\<lparr>locked := [101 \<mapsto> (7, 3600)], sessions := [row_7_101],
     stats := [7 \<mapsto> new_agent_stats]\<rparr>"

definition two_rows :: state where
  "two_rows = initial_state\<lparr>locked := [101 \<mapsto> (7, 3600)],
     sessions := [row_7_101, row_7_101], stats := [7 \<mapsto> new_agent_stats]\<rparr>"

text \<open>Task 101 is held by agent 8; task 102 waits in the queue.\<close>

definition held_by_other :: state where
  "held_by_other = initial_state\<lparr>queue := [102], locked := [101 \<mapsto> (8, 3600)]\<rparr>"

text \<open>Agent 7 holds task 101 and has it as its active assignment.\<close>

definition data_101 :: task_data where
  "data_101 = \<lparr>task_id = 101, audio_url = Audio_stream 101 7, duration = Some 60,
     metadata = Metadata_dict []\<rparr>"

definition holding :: state where
  "holding = one_row\<lparr>queue := [102], tasks := [101, 102],
     active := [7 \<mapsto> (data_101, 3600)]\<rparr>"

text \<open>Skip counters: task 400 skipped once, 401 twice, 402 seven times.\<close>

definition once_skipped :: state where
  "once_skipped = initial_state\<lparr>global_skips := [(400, (1, Some 86400))]\<rparr>"

definition three_counters :: state where
  "three_counters = initial_state\<lparr>global_skips :=
     [(400, (1, Some 86400)), (401, (2, Some 86400)), (402, (7, Some 86400))]\<rparr>"

section \<open>Predicates used in the statements and proofs\<close>

text \<open>
  What one step of the handlers may do to the part of the state the queue depends on:
  \<open>stays\<close> for the steps inside an iteration, \<open>loop_post\<close> for the whole loop.
\<close>

definition stays :: "task list \<Rightarrow> state \<Rightarrow> state \<Rightarrow> bool" where
  "stays avail s s' =
     (global_skips s' = global_skips s \<and> completed_tasks s' = completed_tasks s
      \<and> active s' = active s \<and> last_sync s' = last_sync s \<and> last_updated s' = last_updated s
      \<and> set (tasks s') \<subseteq> set (tasks s)
      \<and> set (queue s') \<subseteq> set (queue s) \<union> set (take 10 avail))"

definition loop_post :: "agent \<Rightarrow> task list \<Rightarrow> state \<Rightarrow> task_data response \<Rightarrow> state \<Rightarrow> bool" where
  "loop_post A avail s r s' =
     (global_skips s' = global_skips s \<and> completed_tasks s' = completed_tasks s
      \<and> last_sync s' = last_sync s \<and> last_updated s' = last_updated s
      \<and> set (tasks s') \<subseteq> set (tasks s)
      \<and> set (queue s') \<subseteq> set (queue s) \<union> set (take 10 avail)
      \<and> (case r of
            OK td \<Rightarrow> GlobalSkipCount s (task_id td) < 5
                     \<and> task_id td \<in> set (queue s) \<union> set (take 10 avail)
                     \<and> active s' = (active s)(A \<mapsto> (td, 3600))
          | HTTP_error c d \<Rightarrow>
              active s' = active s
                \<and> (c = 404 \<and> d = No_available_tasks A
                   \<or> c = 500 \<and> d = Str_of Remove_not_in_list)
              \<or> c = 500 \<and> d = Str_of Validation_error
                \<and> (\<exists>td. task_id td \<in> set (queue s) \<union> set (take 10 avail)
                         \<and> active s' = (active s)(A \<mapsto> (td, 3600)))))"

text \<open>
  A task that is out of circulation: in CompletedSet, in neither queue, and nobody's
  stored assignment.
\<close>

definition retired :: "task \<Rightarrow> state \<Rightarrow> bool" where
  "retired T s =
     (T \<in> completed_tasks s \<and> T \<notin> set (queue s) \<and> T \<notin> set (tasks s)
      \<and> (\<forall>B td ttl. active s B = Some (td, ttl) \<longrightarrow> task_id td \<noteq> T))"

text \<open>Task 400 has been skipped five times; the same with tasks 400 and 401 queued.\<close>

definition disabled_400 :: state where
  "disabled_400 = initial_state\<lparr>global_skips := [(400, (5, Some 86400))]\<rparr>"

definition disabled_queued :: state where
  "disabled_queued = disabled_400\<lparr>queue := [400, 401], tasks := [400, 401]\<rparr>"



text \<open>
  Agent 7 holds task 101, which has left the store queue and is still in the in-memory
  list. Its submit, accepted by Label Studio, is suspended in the LREM of
  \<^verbatim>\<open>remove_task_from_queue\<close> (l.150). A reconciliation whose listing still has task 101
  then filters the list and runs its pipeline (l.86-104); the submit resumes and marks the
  task completed (l.153-157); the reconciliation resumes and writes the in-memory list
  (l.107-121).
\<close>

definition held_101 :: state where
  "held_101 = one_row\<lparr>tasks := [101], active := [7 \<mapsto> (data_101, 3600)]\<rparr>"

definition submit_suspended :: state where
  "submit_suspended =
     remove_from_queues 101
       (record_completion 7 101 ''hello'' 5 (held_101\<lparr>annotations := [(101, ''hello'')]\<rparr>))"

definition reconciled_late :: state where
  "reconciled_late =
     (publish (fresh_task_ids [101] submit_suspended) 6
        (mark_completed 101
           (pipe_execute (fresh_task_ids [101] submit_suspended)
              (submit_suspended\<lparr>syncing := True\<rparr>))))\<lparr>syncing := False\<rparr>"

text \<open>Label Studio lists task 5 twice; agent 1 has requested a task.\<close>

definition listed_twice :: state where
  "listed_twice =
     snd (request_task_for_agent 1 (ls_with (Some [5, 5]))
            (sync_assignment_queue (Some [5, 5]) 0 initial_state))"

text \<open>
  Task 101 waits, in the store and in memory; Label Studio holds it with a duration of
  60 s and \<^verbatim>\<open>data.metadata\<close> null.
\<close>

definition one_waiting :: state where
  "one_waiting = initial_state\<lparr>queue := [101], tasks := [101]\<rparr>"

definition null_metadata_env :: ls_env where
  "null_metadata_env = (ls_with (Some [101]))\<lparr>get_task :=
     (\<lambda>_. Some \<lparr>data_duration = Some 60, data_metadata = Some Metadata_null\<rparr>)\<rparr>"


section \<open>Theorems\<close>

text \<open>
  C1. One run of the atomic script for agent A pops the head T of the queue and returns
  NONE (nil) when the queue is empty; returns DISABLED, T not pushed back, when
  GlobalSkipCount(T) is at least 5; otherwise pushes T to the tail and returns SKIPPED when
  SkipCooldown(T, A) exists; otherwise, when Lock(T) is absent, sets it to A with a TTL of
  3600 s and returns T; otherwise pushes T to the tail and returns LOCKED. Nothing else
  in the state changes.
\<close>

theorem lua_script_behaviour:
  "lua_script A s =
     (case queue s of
        [] \<Rightarrow> (NONE, s)
      | T # q \<Rightarrow>
          if GlobalSkipCount s T \<ge> 5 then (DISABLED, s\<lparr>queue := q\<rparr>)
          else if skipped s (T, A) \<noteq> None then (SKIPPED, s\<lparr>queue := q @ [T]\<rparr>)
          else if locked s T = None
            then (Task_id T, s\<lparr>queue := q, locked := (locked s)(T \<mapsto> (A, 3600))\<rparr>)
          else (LOCKED, s\<lparr>queue := q @ [T]\<rparr>))"
  by (cases "queue s")
     (auto simp: lua_script_def LPOP_def RPUSH_def GET_global_skips_def GlobalSkipCount_def
        EXISTS_skipped_def SET_locked_NX_EX_def Let_def split: option.splits)

text \<open>
  C10. The authentication check answers 403 exactly when the key it is handed differs from
  the configured secret; with the secret unset (None) a request without the header (None)
  is accepted.
\<close>

theorem verify_tz_system_403_iff:
  "(verify_tz_system secret api_key = HTTP_error 403 Invalid_API_key) = (api_key \<noteq> secret)
   \<and> (verify_tz_system secret api_key = OK True) = (api_key = secret)
   \<and> verify_tz_system None None = OK True"
  by (simp add: verify_tz_system_def)

text \<open>
  C5. When Lock(T) is absent or held by another agent, submit and skip both answer 403
  and return the state they were given: no annotation POST, no counter, cooldown, ledger
  row, aggregate, queue or lock is touched.
\<close>

theorem non_holder_forbidden:
  "GET_locked s T \<noteq> Some A \<Longrightarrow>
     submit_transcription T A transcription reply now s = (HTTP_error 403 Cannot_submit, s)
   \<and> skip_task T A reason now s = (HTTP_error 403 Cannot_skip, s)"
  by (simp add: submit_transcription_def skip_task_def)

theorem non_holder_forbidden_witness:
  "GET_locked held_by_other 101 \<noteq> Some 7
   \<and> GET_locked held_by_other 102 \<noteq> Some 7
   \<and> submit_transcription 101 7 ''hello'' (Status 201) 0 held_by_other
       = (HTTP_error 403 Cannot_submit, held_by_other)
   \<and> skip_task 102 7 None 0 held_by_other = (HTTP_error 403 Cannot_skip, held_by_other)"
proof -
  have h: "GET_locked held_by_other 101 \<noteq> Some 7"
    by (simp add: GET_locked_def held_by_other_def)
  have k: "GET_locked held_by_other 102 \<noteq> Some 7"
    by (simp add: GET_locked_def held_by_other_def initial_state_def)
  from non_holder_forbidden [OF h] non_holder_forbidden [OF k] h k show ?thesis by simp
qed

text \<open>
  C4. When A holds Lock(T) and Label Studio answers the annotation POST with a status
  outside 2xx, submit answers 500 and the state is the one it was given, but for the
  record of the POST: Lock(T) is still A's, ActiveAssignment(A), the ledger rows and the
  queue (in the store and in memory) are as before.
\<close>

theorem upstream_error_keeps_state:
  assumes "GET_locked s T = Some A" and "\<not> (200 \<le> code \<and> code < 300)"
  shows "submit_transcription T A transcription (Status code) now s
           = (HTTP_error 500 (Str_of Annotation_rejected),
              s\<lparr>annotations := annotations s @ [(T, transcription)]\<rparr>)
       \<and> GET_locked (snd (submit_transcription T A transcription (Status code) now s)) T = Some A
       \<and> active (snd (submit_transcription T A transcription (Status code) now s)) A = active s A
       \<and> sessions (snd (submit_transcription T A transcription (Status code) now s)) = sessions s
       \<and> queue (snd (submit_transcription T A transcription (Status code) now s)) = queue s
       \<and> tasks (snd (submit_transcription T A transcription (Status code) now s)) = tasks s"
  using assms by (auto simp add: submit_transcription_def GET_locked_def)

theorem upstream_error_keeps_state_witness:
  "GET_locked holding 101 = Some 7 \<and> \<not> (200 \<le> (503::nat) \<and> (503::nat) < 300)
   \<and> fst (submit_transcription 101 7 ''hello'' (Status 503) 5 holding)
       = HTTP_error 500 (Str_of Annotation_rejected)
   \<and> GET_locked (snd (submit_transcription 101 7 ''hello'' (Status 503) 5 holding)) 101 = Some 7
   \<and> active (snd (submit_transcription 101 7 ''hello'' (Status 503) 5 holding)) 7
       = Some (data_101, 3600)
   \<and> sessions (snd (submit_transcription 101 7 ''hello'' (Status 503) 5 holding)) = [row_7_101]
   \<and> queue (snd (submit_transcription 101 7 ''hello'' (Status 503) 5 holding)) = [102]"
proof -
  have h: "GET_locked holding 101 = Some 7"
    by (simp add: GET_locked_def holding_def one_row_def)
  have c: "\<not> (200 \<le> (503::nat) \<and> (503::nat) < 300)" by simp
  from upstream_error_keeps_state [OF h c, of "''hello''" 5]
  have eq: "submit_transcription 101 7 ''hello'' (Status 503) 5 holding
              = (HTTP_error 500 (Str_of Annotation_rejected),
                 holding\<lparr>annotations := annotations holding @ [(101, ''hello'')]\<rparr>)"
    by blast
  have fields: "active holding 7 = Some (data_101, 3600)" "sessions holding = [row_7_101]"
    "queue holding = [102]"
    by (simp_all add: holding_def one_row_def)
  show ?thesis unfolding eq using h fields by (simp add: GET_locked_def)
qed

subsection \<open>Unfolding the script and the loop\<close>

lemma lua_script_unfold:
  "lua_script A s =
     (case queue s of
        [] \<Rightarrow> (NONE, s)
      | T # q \<Rightarrow>
          if GlobalSkipCount s T \<ge> 5 then (DISABLED, s\<lparr>queue := q\<rparr>)
          else if skipped s (T, A) \<noteq> None then (SKIPPED, s\<lparr>queue := q @ [T]\<rparr>)
          else if locked s T = None
            then (Task_id T, s\<lparr>queue := q, locked := (locked s)(T \<mapsto> (A, 3600))\<rparr>)
          else (LOCKED, s\<lparr>queue := q @ [T]\<rparr>))"
  by (cases "queue s")
     (auto simp: lua_script_def LPOP_def RPUSH_def GET_global_skips_def GlobalSkipCount_def
        EXISTS_skipped_def SET_locked_NX_EX_def Let_def split: option.splits)

lemma attempts_numeral:
  "attempts (numeral k) agent_id available_task_ids env dbg s =
     (case refill available_task_ids s of
        Inl s_err \<Rightarrow> (HTTP_error 500 (Str_of Remove_not_in_list), dbg, s_err)
      | Inr s1 \<Rightarrow>
          (case lua_script agent_id (others_scripts (racing env (pred_numeral k)) s1) of
             (NONE, s2) \<Rightarrow>
               (HTTP_error 404 (No_available_tasks agent_id),
                dbg\<lparr>dbg_None := dbg_None dbg + 1\<rparr>, s2)
           | (SKIPPED, s2) \<Rightarrow>
               attempts (pred_numeral k) agent_id available_task_ids env
                 (dbg\<lparr>dbg_SKIPPED := dbg_SKIPPED dbg + 1\<rparr>) s2
           | (LOCKED, s2) \<Rightarrow>
               attempts (pred_numeral k) agent_id available_task_ids env
                 (dbg\<lparr>dbg_LOCKED := dbg_LOCKED dbg + 1\<rparr>) s2
           | (DISABLED, s2) \<Rightarrow>
               attempts (pred_numeral k) agent_id available_task_ids env
                 (dbg\<lparr>dbg_DISABLED := dbg_DISABLED dbg + 1\<rparr>) s2
           | (Task_id t, s2) \<Rightarrow>
               (case assign_task agent_id t env s2 of (r, s3) \<Rightarrow> (r, dbg, s3))))"
  by (simp only: numeral_eq_Suc attempts.simps)

subsection \<open>Stored assignments\<close>

text \<open>
  A stored assignment is answered through \<^verbatim>\<open>TaskResponse\<close> and the state is returned as
  it was given: a stored value whose metadata is a dict comes back as it is, twice in a
  row as well.
\<close>

lemma stored_assignment_answer:
  assumes "active s A = Some (td, ttl)"
  shows "request_task_for_agent A env s =
           ((case TaskResponse td of Some r \<Rightarrow> OK r
             | None \<Rightarrow> HTTP_error 500 Internal_Server_Error), s)"
  using assms by (simp add: request_task_for_agent_def split: option.splits)

lemma valid_assignment_returned:
  assumes "active s A = Some (td, ttl)" and "metadata td = Metadata_dict m"
  shows "request_task_for_agent A env s = (OK td, s)
       \<and> request_task_for_agent A env' (snd (request_task_for_agent A env s)) = (OK td, s)"
  using assms by (simp add: stored_assignment_answer TaskResponse_def)

text \<open>
  C9 fails on the code where the stored assignment does not validate. Label Studio holds
  task 101 with \<^verbatim>\<open>data.metadata\<close> null: the request of agent 7 locks the task, stores the
  assignment and the ledger row and then answers 500; from then on agent 7 holds Lock(101)
  and a live ActiveAssignment, and each of its requests answers 500 instead of the stored
  assignment (the state is left as it is).
\<close>

theorem null_metadata_blocks_agent:
  "fst (request_task_for_agent 7 null_metadata_env one_waiting)
     = HTTP_error 500 (Str_of Validation_error)
   \<and> GET_locked (snd (request_task_for_agent 7 null_metadata_env one_waiting)) 101 = Some 7
   \<and> active (snd (request_task_for_agent 7 null_metadata_env one_waiting)) 7
       = Some (\<lparr>task_id = 101, audio_url = Audio_stream 101 7, duration = Some 60,
                metadata = Metadata_null\<rparr>, 3600)
   \<and> map ses_status (sessions (snd (request_task_for_agent 7 null_metadata_env one_waiting)))
       = [Assigned]
   \<and> request_task_for_agent 7 null_metadata_env
        (snd (request_task_for_agent 7 null_metadata_env one_waiting))
       = (HTTP_error 500 Internal_Server_Error,
          snd (request_task_for_agent 7 null_metadata_env one_waiting))"
proof -
  have a: "active (snd (request_task_for_agent 7 null_metadata_env one_waiting)) 7
       = Some (\<lparr>task_id = 101, audio_url = Audio_stream 101 7, duration = Some 60,
                metadata = Metadata_null\<rparr>, 3600)"
    and r: "fst (request_task_for_agent 7 null_metadata_env one_waiting)
     = HTTP_error 500 (Str_of Validation_error)"
    and l: "GET_locked (snd (request_task_for_agent 7 null_metadata_env one_waiting)) 101 = Some 7"
    and ses: "map ses_status (sessions (snd (request_task_for_agent 7 null_metadata_env one_waiting)))
       = [Assigned]"
    by (simp_all add: request_task_for_agent_def ensure_available_def one_waiting_def
        initial_state_def max_attempts_def attempts_numeral refill_def LLEN_def
        lua_script_unfold others_scripts_def null_metadata_env_def ls_with_def
        GlobalSkipCount_def GET_global_skips_def assign_task_def Let_def TaskResponse_def
        GET_locked_def)
  from stored_assignment_answer [OF a, of null_metadata_env] a r l ses show ?thesis
    by (simp add: TaskResponse_def)
qed

subsection \<open>The ledger on submit\<close>

lemma flipped_rows:
  "length (filter (\<lambda>x. ses_agent_id x = a \<and> ses_status x = Completed)
      (map (\<lambda>x. if matches a t x
                 then x\<lparr>completed_at := Some now, ses_status := Completed,
                        transcription_length := Some k\<rparr>
                 else x) xs))
   = length (filter (\<lambda>x. ses_agent_id x = a \<and> ses_status x = Completed) xs)
     + length (filter (matches a t) xs)"
  by (induction xs) (auto simp: matches_def)

lemma complete_sessions_found:
  assumes "filter (matches a t) (sessions s) \<noteq> []" "stats s a = Some st"
    "duration_seconds (last (filter (matches a t) (sessions s))) = Some d" "d \<noteq> 0"
  shows "stats (complete_sessions a t transcription now s) a =
           Some (st\<lparr>total_duration_seconds := total_duration_seconds st + d,
                    total_tasks_completed := total_tasks_completed st + 1,
                    last_active := Some now,
                    total_earnings := total_earnings st + (d / 60) * 0.45\<rparr>)"
    and "completed_rows a (complete_sessions a t transcription now s)
           = completed_rows a s + length (filter (matches a t) (sessions s))"
  using assms
  by (simp_all add: complete_sessions_def Let_def completed_rows_def flipped_rows
      del: length_filter_map)

text \<open>
  C6, as the code has it. A successful submit that finds at least one 'assigned' row for
  (A, T), with A's aggregate row present and the last such row's duration d neither null
  nor zero, updates the aggregate once: +1 task, +d seconds, +(d/60)*0.45 earnings;
  the number of A's 'completed' rows grows by the number of rows found.
\<close>

theorem submit_updates_aggregate_once:
  assumes "GET_locked s T = Some A" and "code = 200 \<or> code = 201"
    and "filter (matches A T) (sessions s) \<noteq> []" and "stats s A = Some st"
    and "duration_seconds (last (filter (matches A T) (sessions s))) = Some d" and "d \<noteq> 0"
  shows "fst (submit_transcription T A transcription (Status code) now s) = OK ()
       \<and> stats (snd (submit_transcription T A transcription (Status code) now s)) A =
           Some (st\<lparr>total_duration_seconds := total_duration_seconds st + d,
                    total_tasks_completed := total_tasks_completed st + 1,
                    last_active := Some now,
                    total_earnings := total_earnings st + (d / 60) * 0.45\<rparr>)
       \<and> completed_rows A (snd (submit_transcription T A transcription (Status code) now s))
           = completed_rows A s + length (filter (matches A T) (sessions s))"
proof -
  let ?s0 = "s\<lparr>annotations := annotations s @ [(T, transcription)]\<rparr>"
  have m: "filter (matches A T) (sessions ?s0) \<noteq> []" "stats ?s0 A = Some st"
    "duration_seconds (last (filter (matches A T) (sessions ?s0))) = Some d"
    using assms by simp_all
  note c = complete_sessions_found [OF m assms(6), of transcription now]
  have rows: "completed_rows A ?s0 = completed_rows A s" by (simp add: completed_rows_def)
  from assms(1,2) c rows show ?thesis
    by (auto simp: submit_transcription_def Let_def remove_task_from_queue_def remove_from_queues_def mark_completed_def
      record_completion_def completed_rows_def)
qed

theorem submit_updates_aggregate_once_witness:
  "GET_locked one_row 101 = Some 7 \<and> ((201::nat) = 200 \<or> (201::nat) = 201)
   \<and> filter (matches 7 101) (sessions one_row) \<noteq> []
   \<and> stats one_row 7 = Some new_agent_stats
   \<and> duration_seconds (last (filter (matches 7 101) (sessions one_row))) = Some 60
   \<and> (60::real) \<noteq> 0
   \<and> fst (submit_transcription 101 7 ''hello'' (Status 201) 5 one_row) = OK ()
   \<and> stats (snd (submit_transcription 101 7 ''hello'' (Status 201) 5 one_row)) 7 =
        Some \<lparr>total_duration_seconds = 60, total_tasks_completed = 1,
              total_tasks_skipped = 0, total_earnings = 0.45, last_active = Some 5\<rparr>
   \<and> completed_rows 7 (snd (submit_transcription 101 7 ''hello'' (Status 201) 5 one_row)) = 1"
proof -
  have h1: "GET_locked one_row 101 = Some 7"
    by (simp add: GET_locked_def one_row_def)
  have h2: "(201::nat) = 200 \<or> (201::nat) = 201" by simp
  have h3: "filter (matches 7 101) (sessions one_row) \<noteq> []"
    by (simp add: one_row_def matches_def row_7_101_def)
  have h4: "stats one_row 7 = Some new_agent_stats"
    by (simp add: one_row_def)
  have h5: "duration_seconds (last (filter (matches 7 101) (sessions one_row))) = Some 60"
    by (simp add: one_row_def matches_def row_7_101_def)
  have h6: "(60::real) \<noteq> 0" by simp
  have rows: "completed_rows 7 one_row = 0"
    by (simp add: completed_rows_def one_row_def row_7_101_def)
  have found: "length (filter (matches 7 101) (sessions one_row)) = 1"
    by (simp add: one_row_def matches_def row_7_101_def)
  from submit_updates_aggregate_once [OF h1 h2 h3 h4 h5 h6, of "''hello''" 5]
    h1 h3 h4 h5 rows found
  show ?thesis by (simp add: new_agent_stats_def)
qed

text \<open>
  C6, as stated, fails on duplicate rows: with two 'assigned' rows for (7, 101), a
  successful submit leaves two 'completed' rows and a count of one.
\<close>

theorem duplicate_rows_counted_once:
  "completed_rows 7 two_rows = 0
   \<and> map_option total_tasks_completed (stats two_rows 7) = Some 0
   \<and> fst (submit_transcription 101 7 ''hello'' (Status 201) 5 two_rows) = OK ()
   \<and> completed_rows 7 (snd (submit_transcription 101 7 ''hello'' (Status 201) 5 two_rows)) = 2
   \<and> map_option total_tasks_completed
        (stats (snd (submit_transcription 101 7 ''hello'' (Status 201) 5 two_rows)) 7) = Some 1"
  by (simp add: two_rows_def initial_state_def submit_transcription_def GET_locked_def
      complete_sessions_def matches_def Let_def remove_task_from_queue_def remove_from_queues_def mark_completed_def
      record_completion_def completed_rows_def
      new_agent_stats_def row_7_101_def)

subsection \<open>Resetting the skip counters\<close>

lemma GET_DEL_global_skips:
  "GET_global_skips (DEL_global_skips k s) t = (if t = k then None else GET_global_skips s t)"
  by (simp add: GET_global_skips_def DEL_global_skips_def delete_conv')

lemma fold_reset_key:
  "fold reset_key ks (n, r, s) = (n', r', s') \<Longrightarrow>
     (\<forall>t. GET_global_skips s' t =
        (if t \<in> set ks \<and> (\<exists>c. GET_global_skips s t = Some c \<and> 2 \<le> c) then None
         else GET_global_skips s t))
     \<and> n \<le> n'
     \<and> (n < n') = (\<exists>k \<in> set ks. \<exists>c. GET_global_skips s k = Some c \<and> 2 \<le> c)
     \<and> s' = s\<lparr>global_skips := global_skips s'\<rparr>"
proof (induction ks arbitrary: n r s)
  case Nil
  then show ?case by simp
next
  case (Cons k ks)
  show ?case
  proof (cases "\<exists>c. GET_global_skips s k = Some c \<and> 2 \<le> c")
    case True
    then have step: "reset_key k (n, r, s) = (n + 1, r @ [k], DEL_global_skips k s)"
      by (auto simp: reset_key_def)
    from Cons.prems have "fold reset_key ks (n + 1, r @ [k], DEL_global_skips k s) = (n', r', s')"
      by (simp add: step)
    note IH = Cons.IH [OF this]
    have g: "\<And>t. GET_global_skips (DEL_global_skips k s) t
                 = (if t = k then None else GET_global_skips s t)"
      by (rule GET_DEL_global_skips)
    have a: "\<forall>t. GET_global_skips s' t =
        (if t \<in> set (k # ks) \<and> (\<exists>c. GET_global_skips s t = Some c \<and> 2 \<le> c) then None
         else GET_global_skips s t)"
      using IH True by (auto simp: g)
    have b: "n \<le> n'" using IH by simp
    have c: "(n < n') = (\<exists>k' \<in> set (k # ks). \<exists>c. GET_global_skips s k' = Some c \<and> 2 \<le> c)"
      using IH True by auto
    have d: "s' = s\<lparr>global_skips := global_skips s'\<rparr>"
    proof -
      from IH have "s' = (DEL_global_skips k s)\<lparr>global_skips := global_skips s'\<rparr>" by simp
      then show ?thesis by (simp add: DEL_global_skips_def)
    qed
    from a b c d show ?thesis by blast
  next
    case False
    then have step: "reset_key k (n, r, s) = (n, r, s)"
      by (auto simp: reset_key_def split: option.splits)
    from Cons.prems have "fold reset_key ks (n, r, s) = (n', r', s')"
      by (simp add: step)
    from Cons.IH [OF this] False show ?thesis
      by auto
  qed
qed

lemma concat_map_Nil: "concat (map (\<lambda>key. []) ks) = []"
  by (induction ks) simp_all

lemma no_disabled_tasks:
  assumes "\<forall>t. GlobalSkipCount s t < 5"
  shows "get_disabled_tasks s = []"
proof -
  have none: "(\<lambda>key. case GET_global_skips s key of None \<Rightarrow> []
                | Some c \<Rightarrow> if c \<ge> 5 then [(key, c)] else []) = (\<lambda>key. [])"
  proof
    fix key
    from assms have "GlobalSkipCount s key < 5" by blast
    then show "(case GET_global_skips s key of None \<Rightarrow> []
                | Some c \<Rightarrow> if c \<ge> 5 then [(key, c)] else []) = []"
      by (simp add: GlobalSkipCount_def split: option.splits)
  qed
  show ?thesis unfolding get_disabled_tasks_def none concat_map_Nil by simp
qed

text \<open>
  C7, as the code has it. The reset deletes the skip counters whose value is at least 2
  and keeps the others (the counters at 1); it schedules a reconciliation exactly when it
  has deleted a counter; nothing but the counters changes, and afterwards no counter
  reaches 5, so that no task is listed as disabled.
\<close>

theorem reset_disabled_tasks_threshold:
  assumes "reset_disabled_tasks s = (r, triggered, s')"
  shows "(\<forall>t. GET_global_skips s' t =
            (case GET_global_skips s t of
               None \<Rightarrow> None
             | Some c \<Rightarrow> if 2 \<le> c then None else Some c))
       \<and> triggered = (\<exists>t c. GET_global_skips s t = Some c \<and> 2 \<le> c)
       \<and> (\<forall>t. GlobalSkipCount s' t < 5)
       \<and> get_disabled_tasks s' = []
       \<and> s' = s\<lparr>global_skips := global_skips s'\<rparr>"
proof -
  obtain n rs where f: "fold reset_key (KEYS_global_skips s) (0, [], s) = (n, rs, s')"
    and t: "triggered = (0 < n)"
    using assms by (auto simp: reset_disabled_tasks_def split: prod.splits)
  have keys: "\<And>t c. GET_global_skips s t = Some c \<Longrightarrow> t \<in> set (KEYS_global_skips s)"
    by (auto simp: GET_global_skips_def KEYS_global_skips_def dest: map_of_SomeD intro: rev_image_eqI)
  note F = fold_reset_key [OF f]
  have 1: "\<forall>t. GET_global_skips s' t =
            (case GET_global_skips s t of None \<Rightarrow> None | Some c \<Rightarrow> if 2 \<le> c then None else Some c)"
    using F keys by (auto split: option.splits)
  have 2: "triggered = (\<exists>t c. GET_global_skips s t = Some c \<and> 2 \<le> c)"
    using F keys t by auto
  have 3: "\<forall>t. GlobalSkipCount s' t < 5"
    using 1 by (auto simp: GlobalSkipCount_def split: option.splits if_splits)
  from 1 2 3 F no_disabled_tasks [OF 3] show ?thesis by blast
qed

theorem reset_disabled_tasks_threshold_witness:
  "reset_disabled_tasks three_counters
     = (OK (2, [401, 402]), True, three_counters\<lparr>global_skips := [(400, (1, Some 86400))]\<rparr>)
   \<and> GET_global_skips (three_counters\<lparr>global_skips := [(400, (1, Some 86400))]\<rparr>) 400 = Some 1
   \<and> GET_global_skips (three_counters\<lparr>global_skips := [(400, (1, Some 86400))]\<rparr>) 401 = None
   \<and> GlobalSkipCount (three_counters\<lparr>global_skips := [(400, (1, Some 86400))]\<rparr>) 402 < 5
   \<and> get_disabled_tasks (three_counters\<lparr>global_skips := [(400, (1, Some 86400))]\<rparr>) = []"
proof -
  have h: "reset_disabled_tasks three_counters
     = (OK (2, [401, 402]), True, three_counters\<lparr>global_skips := [(400, (1, Some 86400))]\<rparr>)"
    by (simp add: reset_disabled_tasks_def three_counters_def KEYS_global_skips_def
        reset_key_def GET_global_skips_def DEL_global_skips_def AList.delete_eq)
  from reset_disabled_tasks_threshold [OF h] h show ?thesis
    by (simp add: GET_global_skips_def three_counters_def)
qed

text \<open>
  C7, as stated, fails on a counter at 1: the reset keeps the key and schedules no
  reconciliation.
\<close>

theorem reset_keeps_single_skip:
  "GET_global_skips once_skipped 400 = Some 1
   \<and> fst (reset_disabled_tasks once_skipped) = OK (0, [])
   \<and> GET_global_skips (snd (snd (reset_disabled_tasks once_skipped))) 400 = Some 1
   \<and> \<not> fst (snd (reset_disabled_tasks once_skipped))"
  by (simp add: reset_disabled_tasks_def once_skipped_def KEYS_global_skips_def
      reset_key_def GET_global_skips_def)

subsection \<open>What the steps of a request leave unchanged\<close>

lemma lua_script_frame:
  assumes "lua_script A s = (r, s')"
  shows "global_skips s' = global_skips s" and "tasks s' = tasks s"
    and "completed_tasks s' = completed_tasks s" and "active s' = active s"
    and "set (queue s') \<subseteq> set (queue s)"
    and "last_sync s' = last_sync s" and "last_updated s' = last_updated s"
  using assms unfolding lua_script_unfold
  by (auto split: list.splits if_splits)

lemma lua_script_task:
  assumes "lua_script A s = (Task_id t, s')"
  shows "t \<in> set (queue s)" and "GlobalSkipCount s t < 5"
  using assms unfolding lua_script_unfold
  by (auto split: list.splits if_splits)


lemma GlobalSkipCount_cong:
  "global_skips s' = global_skips s \<Longrightarrow> GlobalSkipCount s' t = GlobalSkipCount s t"
  by (simp add: GlobalSkipCount_def GET_global_skips_def)

lemma others_scripts_frame:
  "global_skips (others_scripts bs s) = global_skips s
   \<and> tasks (others_scripts bs s) = tasks s
   \<and> completed_tasks (others_scripts bs s) = completed_tasks s
   \<and> active (others_scripts bs s) = active s
   \<and> set (queue (others_scripts bs s)) \<subseteq> set (queue s)
   \<and> last_sync (others_scripts bs s) = last_sync s
   \<and> last_updated (others_scripts bs s) = last_updated s"
proof (induction bs arbitrary: s)
  case Nil
  then show ?case by (simp add: others_scripts_def)
next
  case (Cons b bs)
  obtain r s1 where l: "lua_script b s = (r, s1)" by (cases "lua_script b s")
  have step: "others_scripts (b # bs) s = others_scripts bs s1"
    by (simp add: others_scripts_def l)
  from Cons.IH [of s1] lua_script_frame [OF l] show ?case
    unfolding step by auto
qed

lemma transfer_subset:
  "transfer xs mem = Inr mem' \<Longrightarrow> set mem' \<subseteq> set mem"
  "transfer xs mem = Inl mem' \<Longrightarrow> set mem' \<subseteq> set mem"
proof (induction xs arbitrary: mem)
  case Nil
  { case 1 then show ?case by simp }
  { case 2 then show ?case by simp }
next
  case (Cons x xs)
  { case 1
    then show ?case using Cons.IH(1) [of "remove1 x mem"] set_remove1_subset [of x mem]
      by (auto split: if_splits) }
  { case 2
    then show ?case using Cons.IH(2) [of "remove1 x mem"] set_remove1_subset [of x mem]
      by (auto split: if_splits) }
qed

lemma fold_RPUSH_eq: "fold RPUSH xs s = s\<lparr>queue := queue s @ xs\<rparr>"
  by (induction xs arbitrary: s) (simp_all add: RPUSH_def)

lemma refill_frame:
  assumes "refill avail s = Inr s' \<or> refill avail s = Inl s'"
  shows "global_skips s' = global_skips s" and "completed_tasks s' = completed_tasks s"
    and "active s' = active s" and "set (tasks s') \<subseteq> set (tasks s)"
    and "set (queue s') \<subseteq> set (queue s) \<union> set (take 10 avail)"
    and "last_sync s' = last_sync s" and "last_updated s' = last_updated s"
  using assms transfer_subset [of "take 10 avail" "tasks s"]
  by (auto simp: refill_def fold_RPUSH_eq split: if_splits sum.splits)

lemma assign_task_frame:
  assumes "assign_task A t env s = (r, s')"
  shows "\<exists>td. task_id td = t \<and> active s' = (active s)(A \<mapsto> (td, 3600))
              \<and> (r = OK td \<or> r = HTTP_error 500 (Str_of Validation_error))"
    and "global_skips s' = global_skips s" and "completed_tasks s' = completed_tasks s"
    and "tasks s' = tasks s" and "queue s' = queue s"
    and "last_sync s' = last_sync s" and "last_updated s' = last_updated s"
proof -
  define td where "td = \<lparr>task_id = t, audio_url = Audio_stream t A,
      duration = (case get_task env t of None \<Rightarrow> None | Some d \<Rightarrow> data_duration d),
      metadata = (case get_task env t of None \<Rightarrow> Metadata_dict []
                  | Some d \<Rightarrow> (case data_metadata d of None \<Rightarrow> Metadata_dict [] | Some m \<Rightarrow> m))\<rparr>"
  have t: "task_id td = t" by (simp add: td_def)
  from assms have a: "active s' = (active s)(A \<mapsto> (td, 3600))"
    by (auto simp: assign_task_def Let_def td_def split: option.splits)
  from assms have r: "r = OK td \<or> r = HTTP_error 500 (Str_of Validation_error)"
    by (auto simp: assign_task_def Let_def td_def TaskResponse_def
        split: option.splits metadata_json.splits)
  from t a r show "\<exists>td. task_id td = t \<and> active s' = (active s)(A \<mapsto> (td, 3600))
              \<and> (r = OK td \<or> r = HTTP_error 500 (Str_of Validation_error))" by blast
  from assms show "global_skips s' = global_skips s" and "completed_tasks s' = completed_tasks s"
    and "tasks s' = tasks s" and "queue s' = queue s"
    and "last_sync s' = last_sync s" and "last_updated s' = last_updated s"
    by (auto simp: assign_task_def Let_def split: option.splits)
qed

lemma pipe_execute_eq: "pipe_execute fresh s = s\<lparr>queue := fresh\<rparr>"
  by (simp add: pipe_execute_def fold_RPUSH_eq)

lemma sync_frame:
  "global_skips (sync_assignment_queue resp now s) = global_skips s"
  "completed_tasks (sync_assignment_queue resp now s) = completed_tasks s"
  "active (sync_assignment_queue resp now s) = active s"
  "set (tasks (sync_assignment_queue resp now s)) \<subseteq> set (tasks s) \<union> - completed_tasks s"
  "set (queue (sync_assignment_queue resp now s)) \<subseteq> set (queue s) \<union> - completed_tasks s"
  by (auto simp: sync_assignment_queue_def fresh_task_ids_def pipe_execute_eq publish_def
      Let_def split: option.splits)

lemma stays_refl: "stays avail s s"
  by (simp add: stays_def)

lemma stays_trans: "stays avail s s1 \<Longrightarrow> stays avail s1 s2 \<Longrightarrow> stays avail s s2"
  by (auto simp: stays_def)

lemma stays_loop_post:
  "stays avail s s1 \<Longrightarrow> loop_post A avail s1 r s' \<Longrightarrow> loop_post A avail s r s'"
proof -
  assume a: "stays avail s s1" and b: "loop_post A avail s1 r s'"
  from a have "global_skips s1 = global_skips s" by (simp add: stays_def)
  then have g: "\<And>t. GlobalSkipCount s1 t = GlobalSkipCount s t"
    by (rule GlobalSkipCount_cong)
  from a b show ?thesis
    by (cases r) (auto simp: stays_def loop_post_def g)
qed

lemma stays_refill: "refill avail s = Inr s' \<or> refill avail s = Inl s' \<Longrightarrow> stays avail s s'"
  using refill_frame [of avail s s'] by (auto simp: stays_def)

lemma stays_others: "stays avail s (others_scripts bs s)"
  using others_scripts_frame [of bs s] by (auto simp: stays_def)

lemma stays_lua: "lua_script A s = (r, s') \<Longrightarrow> stays avail s s'"
  using lua_script_frame [of A s r s'] by (auto simp: stays_def)

lemma attempts_post:
  "attempts n A avail env dbg s = (r, dbg', s') \<Longrightarrow> loop_post A avail s r s'"
proof (induction n arbitrary: dbg s)
  case 0
  then show ?case by (auto simp: loop_post_def)
next
  case (Suc n)
  show ?case
  proof (cases "refill avail s")
    case (Inl e)
    with Suc.prems have "r = HTTP_error 500 (Str_of Remove_not_in_list)" "s' = e" by auto
    moreover from Inl have "stays avail s e" by (simp add: stays_refill)
    ultimately show ?thesis by (auto simp: loop_post_def stays_def)
  next
    case (Inr s1)
    obtain res s2 where l: "lua_script A (others_scripts (racing env n) s1) = (res, s2)"
      by (cases "lua_script A (others_scripts (racing env n) s1)")
    have "stays avail s s1" using Inr by (simp add: stays_refill)
    then have pre1: "stays avail s (others_scripts (racing env n) s1)"
      by (rule stays_trans) (rule stays_others)
    then have pre: "stays avail s s2"
      by (rule stays_trans) (rule stays_lua [OF l])
    show ?thesis
    proof (cases res)
      case NONE
      with Suc.prems Inr l have "r = HTTP_error 404 (No_available_tasks A)" "s' = s2" by auto
      with pre show ?thesis by (auto simp: loop_post_def stays_def)
    next
      case DISABLED
      with Suc.prems Inr l obtain d where "attempts n A avail env d s2 = (r, dbg', s')" by auto
      from stays_loop_post [OF pre Suc.IH [OF this]] show ?thesis .
    next
      case SKIPPED
      with Suc.prems Inr l obtain d where "attempts n A avail env d s2 = (r, dbg', s')" by auto
      from stays_loop_post [OF pre Suc.IH [OF this]] show ?thesis .
    next
      case LOCKED
      with Suc.prems Inr l obtain d where "attempts n A avail env d s2 = (r, dbg', s')" by auto
      from stays_loop_post [OF pre Suc.IH [OF this]] show ?thesis .
    next
      case (Task_id t)
      with Suc.prems Inr l have a: "assign_task A t env s2 = (r, s')"
        by (auto split: prod.splits)
      from l Task_id have t: "t \<in> set (queue (others_scripts (racing env n) s1))"
        "GlobalSkipCount (others_scripts (racing env n) s1) t < 5"
        by (auto dest: lua_script_task)
      from assign_task_frame(1) [OF a] obtain td where td: "task_id td = t"
        "active s' = (active s2)(A \<mapsto> (td, 3600))"
        "r = OK td \<or> r = HTTP_error 500 (Str_of Validation_error)" by blast
      note f = assign_task_frame(2-7) [OF a] lua_script_frame [OF l]
      have "loop_post A avail (others_scripts (racing env n) s1) r s'"
      proof (cases "r = OK td")
        case True
        with t td f show ?thesis by (auto simp: loop_post_def)
      next
        case False
        with td have r: "r = HTTP_error 500 (Str_of Validation_error)" by simp
        have "\<exists>td'. task_id td' \<in> set (queue (others_scripts (racing env n) s1))
                     \<union> set (take 10 avail)
                 \<and> active s' = (active (others_scripts (racing env n) s1))(A \<mapsto> (td', 3600))"
          using t td f by (intro exI [of _ td]) simp
        with r f show ?thesis by (auto simp: loop_post_def)
      qed
      from stays_loop_post [OF pre1 this] show ?thesis .
    qed
  qed
qed

lemma ensure_available_post:
  assumes "ensure_available env s = (avail, s1)"
  shows "avail = tasks s1" and "global_skips s1 = global_skips s"
    and "completed_tasks s1 = completed_tasks s" and "active s1 = active s"
    and "set (tasks s1) \<subseteq> set (tasks s) \<union> - completed_tasks s"
    and "set (queue s1) \<subseteq> set (queue s) \<union> - completed_tasks s"
proof -
  let ?s1 = "sync_assignment_queue (get_unlabeled_tasks env 0) (utcnow env) s"
  let ?s2 = "sync_assignment_queue (get_unlabeled_tasks env 2) (utcnow env) ?s1"
  from assms have c: "(avail, s1) = (tasks s, s) \<or> (avail, s1) = (tasks ?s1, ?s1)
      \<or> (avail, s1) = (tasks ?s2, ?s2)"
    by (auto simp: ensure_available_def Let_def split: if_splits option.splits)
  note a = sync_frame [of "get_unlabeled_tasks env 0" "utcnow env" s]
  note b = sync_frame [of "get_unlabeled_tasks env 2" "utcnow env" ?s1]
  from c show "avail = tasks s1" by auto
  from c a b show "global_skips s1 = global_skips s" by auto
  from c a b show "completed_tasks s1 = completed_tasks s" by auto
  from c a b show "active s1 = active s" by auto
  from c a b show "set (tasks s1) \<subseteq> set (tasks s) \<union> - completed_tasks s" by auto
  from c a b show "set (queue s1) \<subseteq> set (queue s) \<union> - completed_tasks s" by auto
qed

lemma request_post:
  assumes "active s A = None" and "request_task_for_agent A env s = (r, s')"
  obtains s1 where "ensure_available env s = (tasks s1, s1)"
    and "tasks s1 = [] \<Longrightarrow> r = HTTP_error 404 No_tasks_in_queue \<and> s' = s1"
    and "tasks s1 \<noteq> [] \<Longrightarrow> loop_post A (tasks s1) s1 r s'"
proof -
  obtain avail s1 where e: "ensure_available env s = (avail, s1)"
    by (cases "ensure_available env s")
  from ensure_available_post(1) [OF e] have av: "avail = tasks s1" .
  show thesis
  proof (rule that [of s1])
    show "ensure_available env s = (tasks s1, s1)" using e av by simp
    show "r = HTTP_error 404 No_tasks_in_queue \<and> s' = s1" if "tasks s1 = []"
      using assms e av that by (simp add: request_task_for_agent_def)
    show "loop_post A (tasks s1) s1 r s'" if "tasks s1 \<noteq> []"
    proof -
      obtain r2 dbg s2 where a: "attempts max_attempts A (tasks s1) env no_results s1 = (r2, dbg, s2)"
        by (cases "attempts max_attempts A (tasks s1) env no_results s1") auto
      with assms e av that have "r = r2" "s' = s2"
        by (simp_all add: request_task_for_agent_def)
      with attempts_post [OF a] show ?thesis by simp
    qed
  qed
qed

subsection \<open>Disabled tasks\<close>

text \<open>
  C2, as the code has it. While GlobalSkipCount(T) is at least 5, \<^verbatim>\<open>request_task\<close> hands
  T out to nobody: the only answer naming T is the caller's own stored ActiveAssignment,
  returned as it is; and the request leaves the counters as they are, as does the
  reconciler. The reconciler does not look at the counters: it enqueues T whenever
  Label Studio lists T and T is not in CompletedSet.
\<close>

theorem disabled_task_not_handed_out:
  assumes "5 \<le> GlobalSkipCount s T"
  shows "(\<forall>td. fst (request_task_for_agent A env s) = OK td \<and> task_id td = T
             \<longrightarrow> (\<exists>ttl. active s A = Some (td, ttl)))
       \<and> global_skips (snd (request_task_for_agent A env s)) = global_skips s
       \<and> global_skips (sync_assignment_queue resp now s) = global_skips s
       \<and> (\<not> syncing s \<and> T \<in> set ids \<and> T \<notin> completed_tasks s
            \<longrightarrow> T \<in> set (queue (sync_assignment_queue (Some ids) now s)))"
proof -
  obtain r s' where req: "request_task_for_agent A env s = (r, s')"
    by (cases "request_task_for_agent A env s")
  have 1: "\<exists>ttl. active s A = Some (td, ttl)" if "r = OK td" "task_id td = T" for td
  proof (cases "active s A")
    case (Some a)
    with req that show ?thesis
      by (cases a) (auto simp: request_task_for_agent_def TaskResponse_def
          split: option.splits metadata_json.splits)
  next
    case None
    from request_post [OF None req] obtain s1 where e: "ensure_available env s = (tasks s1, s1)"
      and emp: "tasks s1 = [] \<Longrightarrow> r = HTTP_error 404 No_tasks_in_queue \<and> s' = s1"
      and lp: "tasks s1 \<noteq> [] \<Longrightarrow> loop_post A (tasks s1) s1 r s'" by blast
    from emp that have ne: "tasks s1 \<noteq> []" by auto
    from lp [OF ne] that have "GlobalSkipCount s1 T < 5" by (simp add: loop_post_def)
    moreover have "GlobalSkipCount s1 T = GlobalSkipCount s T"
      using ensure_available_post(2) [OF e] by (rule GlobalSkipCount_cong)
    ultimately show ?thesis using assms by simp
  qed
  have 2: "global_skips s' = global_skips s"
  proof (cases "active s A")
    case (Some a)
    with req show ?thesis
      by (cases a) (auto simp: request_task_for_agent_def split: option.splits)
  next
    case None
    from request_post [OF None req] obtain s1 where e: "ensure_available env s = (tasks s1, s1)"
      and emp: "tasks s1 = [] \<Longrightarrow> r = HTTP_error 404 No_tasks_in_queue \<and> s' = s1"
      and lp: "tasks s1 \<noteq> [] \<Longrightarrow> loop_post A (tasks s1) s1 r s'" by blast
    have "global_skips s' = global_skips s1"
      using emp lp by (cases "tasks s1 = []") (auto simp: loop_post_def)
    with ensure_available_post(2) [OF e] show ?thesis by simp
  qed
  have 3: "global_skips (sync_assignment_queue resp now s) = global_skips s"
    by (rule sync_frame)
  have 4: "\<not> syncing s \<and> T \<in> set ids \<and> T \<notin> completed_tasks s
            \<longrightarrow> T \<in> set (queue (sync_assignment_queue (Some ids) now s))"
    by (simp add: sync_assignment_queue_def fresh_task_ids_def pipe_execute_eq publish_def Let_def)
  from 1 2 3 4 req show ?thesis by simp
qed

theorem disabled_task_not_handed_out_witness:
  "5 \<le> GlobalSkipCount disabled_queued 400
   \<and> fst (request_task_for_agent 6 (ls_with (Some [400, 401])) disabled_queued)
       = OK \<lparr>task_id = 401, audio_url = Audio_stream 401 6, duration = None,
             metadata = Metadata_dict []\<rparr>
   \<and> global_skips (snd (request_task_for_agent 6 (ls_with (Some [400, 401])) disabled_queued))
       = [(400, (5, Some 86400))]
   \<and> 400 \<in> set (queue (sync_assignment_queue (Some [400, 401]) 0 disabled_queued))"
proof -
  have h: "5 \<le> GlobalSkipCount disabled_queued 400"
    by (simp add: disabled_queued_def disabled_400_def GlobalSkipCount_def GET_global_skips_def)
  have r: "fst (request_task_for_agent 6 (ls_with (Some [400, 401])) disabled_queued)
       = OK \<lparr>task_id = 401, audio_url = Audio_stream 401 6, duration = None,
             metadata = Metadata_dict []\<rparr>"
    by (simp add: request_task_for_agent_def ensure_available_def disabled_queued_def
        disabled_400_def initial_state_def max_attempts_def attempts_numeral refill_def LLEN_def
        lua_script_unfold others_scripts_def ls_with_def GlobalSkipCount_def
        GET_global_skips_def assign_task_def Let_def TaskResponse_def)
  have g: "global_skips disabled_queued = [(400, (5, Some 86400))]"
    "\<not> syncing disabled_queued" "400 \<notin> completed_tasks disabled_queued"
    by (simp_all add: disabled_queued_def disabled_400_def initial_state_def)
  from disabled_task_not_handed_out [OF h, of 6 "ls_with (Some [400, 401])" None 0 "[400, 401]"]
    h r g show ?thesis by simp
qed

text \<open>
  C2, as stated, fails for the reconciler: with GlobalSkipCount(400) = 5 and Label Studio
  listing task 400, a reconciliation puts 400 into the queue.
\<close>

theorem reconciler_enqueues_disabled:
  "GlobalSkipCount disabled_400 400 \<ge> 5
   \<and> queue disabled_400 = []
   \<and> queue (sync_assignment_queue (Some [400]) 0 disabled_400) = [400]
   \<and> GlobalSkipCount (sync_assignment_queue (Some [400]) 0 disabled_400) 400 \<ge> 5"
  by (simp add: disabled_400_def initial_state_def sync_assignment_queue_def Let_def
      fresh_task_ids_def pipe_execute_eq publish_def GlobalSkipCount_def GET_global_skips_def)


subsection \<open>The outcomes of a request\<close>





text \<open>
  A second refill within one request finds the ids of the handler's copy gone from the
  in-memory list: with one disabled task queued, the third iteration raises ValueError and
  the request ends in a 500.
\<close>

lemma second_refill_raises:
  "fst (request_task_for_agent 6 (ls_with (Some [400]))
          (disabled_400\<lparr>queue := [400], tasks := [400]\<rparr>))
     = HTTP_error 500 (Str_of Remove_not_in_list)"
  by (simp add: request_task_for_agent_def ensure_available_def disabled_400_def
      initial_state_def max_attempts_def attempts_numeral refill_def LLEN_def
      lua_script_unfold others_scripts_def ls_with_def GlobalSkipCount_def
      GET_global_skips_def RPUSH_def)

subsection \<open>Completed tasks\<close>

text \<open>
  When the handlers run one after another, on an in-memory list that holds each id once,
  a successful submit of T by its holder takes T out of circulation, and neither a
  request nor a reconciliation brings it back.
\<close>

lemma retired_request:
  assumes "retired T s" and req: "request_task_for_agent B env s = (r, s')"
  shows "retired T s'" and "\<forall>td. r = OK td \<longrightarrow> task_id td \<noteq> T"
proof -
  have "retired T s' \<and> (\<forall>td. r = OK td \<longrightarrow> task_id td \<noteq> T)"
  proof (cases "active s B")
    case (Some a)
    obtain td ttl where a: "a = (td, ttl)" by (cases a)
    from stored_assignment_answer [of s B td ttl env] Some a req
    have "s' = s" and "r = OK td \<or> r = HTTP_error 500 Internal_Server_Error"
      by (auto simp: TaskResponse_def split: metadata_json.splits)
    with assms(1) Some a show ?thesis by (auto simp: retired_def)
  next
    case None
    from request_post [OF None req] obtain s1 where e: "ensure_available env s = (tasks s1, s1)"
      and emp: "tasks s1 = [] \<Longrightarrow> r = HTTP_error 404 No_tasks_in_queue \<and> s' = s1"
      and lp: "tasks s1 \<noteq> [] \<Longrightarrow> loop_post B (tasks s1) s1 r s'" by blast
    from assms(1) ensure_available_post(3-6) [OF e] have r1: "retired T s1"
      by (auto simp: retired_def)
    show ?thesis
    proof (cases "tasks s1 = []")
      case True
      with emp r1 show ?thesis by simp
    next
      case False
      have sub: "set (take 10 (tasks s1)) \<subseteq> set (tasks s1)" by (rule set_take_subset)
      note L = lp [OF False]
      from r1 have T: "T \<in> completed_tasks s1" "T \<notin> set (queue s1)" "T \<notin> set (tasks s1)"
        and A: "\<And>C td ttl. active s1 C = Some (td, ttl) \<Longrightarrow> task_id td \<noteq> T"
        by (auto simp: retired_def)
      from L T sub have c: "T \<in> completed_tasks s'" and q: "T \<notin> set (queue s')"
        and m: "T \<notin> set (tasks s')"
        by (auto simp: loop_post_def)
      from L have act: "active s' = active s1
          \<or> (\<exists>td. task_id td \<in> set (queue s1) \<union> set (take 10 (tasks s1))
                  \<and> active s' = (active s1)(B \<mapsto> (td, 3600)))"
        by (cases r) (auto simp: loop_post_def)
      have a: "task_id td \<noteq> T" if "active s' C = Some (td, ttl)" for C td ttl
      proof -
        from act show ?thesis
        proof
          assume "active s' = active s1"
          with that A show ?thesis by simp
        next
          assume "\<exists>td. task_id td \<in> set (queue s1) \<union> set (take 10 (tasks s1))
                  \<and> active s' = (active s1)(B \<mapsto> (td, 3600))"
          then obtain td' where td': "task_id td' \<in> set (queue s1) \<union> set (take 10 (tasks s1))"
            "active s' = (active s1)(B \<mapsto> (td', 3600))" by blast
          from td'(1) T sub have "task_id td' \<noteq> T" by auto
          with that td'(2) A show ?thesis by (cases "C = B") auto
        qed
      qed
      have ok: "task_id td \<noteq> T" if "r = OK td" for td
        using L that T sub by (auto simp: loop_post_def)
      from c q m a ok show ?thesis unfolding retired_def by blast
    qed
  qed
  then show "retired T s'" and "\<forall>td. r = OK td \<longrightarrow> task_id td \<noteq> T" by simp_all
qed

lemma retired_sync: "retired T s \<Longrightarrow> retired T (sync_assignment_queue resp now s)"
  using sync_frame(2-5) [of resp now s] by (auto simp: retired_def)

lemma complete_sessions_frame:
  "queue (complete_sessions a t tr now s) = queue s"
  "tasks (complete_sessions a t tr now s) = tasks s"
  "completed_tasks (complete_sessions a t tr now s) = completed_tasks s"
  "active (complete_sessions a t tr now s) = active s"
  "locked (complete_sessions a t tr now s) = locked s"
  "global_skips (complete_sessions a t tr now s) = global_skips s"
  "skipped (complete_sessions a t tr now s) = skipped s"
  by (simp_all add: complete_sessions_def Let_def split: option.splits)

lemma remove_task_frame:
  "queue (remove_task_from_queue t s) = removeAll t (queue s)"
  "tasks (remove_task_from_queue t s) = remove1 t (tasks s)"
  "completed_tasks (remove_task_from_queue t s) = insert t (completed_tasks s)"
  "active (remove_task_from_queue t s) = active s"
  "locked (remove_task_from_queue t s) = locked s"
  by (simp_all add: remove_task_from_queue_def remove_from_queues_def mark_completed_def
      Let_def remove1_idem)

lemma submit_retires_when_alone:
  assumes "GET_locked s T = Some A" and "code = 200 \<or> code = 201"
    and "distinct (tasks s)"
    and "\<forall>B td ttl. active s B = Some (td, ttl) \<and> task_id td = T \<longrightarrow> B = A"
  shows "fst (submit_transcription T A transcription (Status code) now s) = OK ()"
    and "retired T (snd (submit_transcription T A transcription (Status code) now s))"
proof -
  let ?s2 = "record_completion A T transcription now
               (s\<lparr>annotations := annotations s @ [(T, transcription)]\<rparr>)"
  from assms(1,2)
  have sub: "submit_transcription T A transcription (Status code) now s
               = (OK (), remove_task_from_queue T ?s2)"
    by (auto simp: submit_transcription_def Let_def)
  have f: "queue ?s2 = queue s" "tasks ?s2 = tasks s" "completed_tasks ?s2 = completed_tasks s"
    "active ?s2 = (active s)(A := None)"
    by (simp_all add: record_completion_def Let_def complete_sessions_frame)
  have "retired T (remove_task_from_queue T ?s2)"
    unfolding retired_def using assms(3,4) by (auto simp: remove_task_frame f split: if_splits)
  with sub show "fst (submit_transcription T A transcription (Status code) now s) = OK ()"
    and "retired T (snd (submit_transcription T A transcription (Status code) now s))"
    by simp_all
qed

text \<open>
  C3 fails on the code in two ways. First, a reconciliation in flight: agent 7's
  submit of task 101 succeeds, and is the two stretches of \<^verbatim>\<open>remove_task_from_queue\<close>
  around its suspension; the reconciliation that filters its list while the submit is
  suspended does not yet find 101 in CompletedSet and writes it back into the store
  queue and the in-memory list; 101 is then in CompletedSet, unlocked and queued, and
  the next request, of agent 8, is handed task 101. Second, an id that the in-memory list
  holds twice: \<^verbatim>\<open>list.remove\<close> drops one occurrence where LREM drops all, so after agent
  1's successful submit of task 5 the in-memory list still holds 5, and agent 2 is
  handed task 5.
\<close>

theorem completed_task_handed_out_again:
  "submit_transcription 101 7 ''hello'' (Status 201) 5 held_101
     = (OK (), mark_completed 101 submit_suspended)
   \<and> fresh_task_ids [101] submit_suspended = [101]
   \<and> 101 \<in> completed_tasks reconciled_late
   \<and> queue reconciled_late = [101] \<and> tasks reconciled_late = [101]
   \<and> fst (request_task_for_agent 8 (ls_with (Some [])) reconciled_late)
       = OK \<lparr>task_id = 101, audio_url = Audio_stream 101 8, duration = None,
             metadata = Metadata_dict []\<rparr>
   \<and> GET_locked listed_twice 5 = Some 1
   \<and> fst (submit_transcription 5 1 ''hello'' (Status 201) 5 listed_twice) = OK ()
   \<and> 5 \<in> completed_tasks (snd (submit_transcription 5 1 ''hello'' (Status 201) 5 listed_twice))
   \<and> tasks (snd (submit_transcription 5 1 ''hello'' (Status 201) 5 listed_twice)) = [5]
   \<and> fst (request_task_for_agent 2 (ls_with (Some []))
             (snd (submit_transcription 5 1 ''hello'' (Status 201) 5 listed_twice)))
       = OK \<lparr>task_id = 5, audio_url = Audio_stream 5 2, duration = None,
             metadata = Metadata_dict []\<rparr>"
proof -
  have l: "GET_locked held_101 101 = Some 7"
    by (simp add: GET_locked_def held_101_def one_row_def)
  have 1: "submit_transcription 101 7 ''hello'' (Status 201) 5 held_101
     = (OK (), mark_completed 101 submit_suspended)"
    using l by (simp add: submit_transcription_def remove_task_from_queue_def
        submit_suspended_def) (simp add: held_101_def one_row_def initial_state_def)
  have sus: "completed_tasks submit_suspended = {}" "queue submit_suspended = []"
    "tasks submit_suspended = []" "locked submit_suspended = Map.empty"
    "active submit_suspended = Map.empty" "global_skips submit_suspended = []"
    "skipped submit_suspended = Map.empty"
    by (simp_all add: submit_suspended_def remove_from_queues_def record_completion_def
        complete_sessions_frame Let_def held_101_def one_row_def initial_state_def)
  have 2: "fresh_task_ids [101] submit_suspended = [101]"
    by (simp add: fresh_task_ids_def sus)
  have late: "completed_tasks reconciled_late = {101}" "queue reconciled_late = [101]"
    "tasks reconciled_late = [101]" "locked reconciled_late = Map.empty"
    "active reconciled_late = Map.empty" "global_skips reconciled_late = []"
    "skipped reconciled_late = Map.empty"
    by (simp_all add: reconciled_late_def 2 publish_def mark_completed_def pipe_execute_eq
        Let_def sus)
  have 3: "fst (request_task_for_agent 8 (ls_with (Some [])) reconciled_late)
       = OK \<lparr>task_id = 101, audio_url = Audio_stream 101 8, duration = None,
             metadata = Metadata_dict []\<rparr>"
    by (simp add: request_task_for_agent_def ensure_available_def late max_attempts_def
        attempts_numeral refill_def LLEN_def lua_script_unfold others_scripts_def ls_with_def
        GlobalSkipCount_def GET_global_skips_def assign_task_def Let_def TaskResponse_def)
  have tw: "queue listed_twice = [5]" "tasks listed_twice = [5, 5]"
    "locked listed_twice = [5 \<mapsto> (1, 3600)]" "completed_tasks listed_twice = {}"
    "global_skips listed_twice = []" "skipped listed_twice = Map.empty"
    "active listed_twice 2 = None"
    by (simp_all add: listed_twice_def request_task_for_agent_def ensure_available_def
        sync_assignment_queue_def fresh_task_ids_def pipe_execute_eq publish_def
        initial_state_def max_attempts_def attempts_numeral refill_def LLEN_def
        lua_script_unfold others_scripts_def ls_with_def GlobalSkipCount_def
        GET_global_skips_def assign_task_def Let_def TaskResponse_def)
  have l5: "GET_locked listed_twice 5 = Some 1"
    by (simp add: GET_locked_def tw)
  let ?s = "snd (submit_transcription 5 1 ''hello'' (Status 201) 5 listed_twice)"
  have sub: "submit_transcription 5 1 ''hello'' (Status 201) 5 listed_twice
      = (OK (), remove_task_from_queue 5 (record_completion 1 5 ''hello'' 5
           (listed_twice\<lparr>annotations := annotations listed_twice @ [(5, ''hello'')]\<rparr>)))"
    using l5 by (simp add: submit_transcription_def)
  have after: "queue ?s = []" "tasks ?s = [5]" "completed_tasks ?s = {5}"
    "locked ?s = Map.empty" "active ?s 2 = None" "global_skips ?s = []"
    "skipped ?s = Map.empty"
    by (simp_all add: sub remove_task_frame remove_task_from_queue_def mark_completed_def
        remove_from_queues_def record_completion_def complete_sessions_frame Let_def tw)
  have 4: "fst (request_task_for_agent 2 (ls_with (Some [])) ?s)
       = OK \<lparr>task_id = 5, audio_url = Audio_stream 5 2, duration = None,
             metadata = Metadata_dict []\<rparr>"
    by (simp add: request_task_for_agent_def ensure_available_def after max_attempts_def
        attempts_numeral refill_def LLEN_def RPUSH_def lua_script_unfold others_scripts_def
        ls_with_def GlobalSkipCount_def GET_global_skips_def assign_task_def Let_def
        TaskResponse_def)
  from 1 2 late(1-3) 3 l5 sub after(2,3) 4 show ?thesis by simp
qed

end
